theory Spec2Isabelle
  imports Main
begin

section \<open>The data model\<close>

text \<open>
  The script reads CSV files line by line. A file is modelled by the sequence of lines
  that \<^verbatim>\<open>for line in ifile\<close> yields, each line a \<open>string\<close> that still carries
  its terminator. Object IDs are strings, the ID set is a \<open>string set\<close>, and the
  target count \<^verbatim>\<open>num\<close> is a Python integer, hence an \<open>int\<close>. Failures of
  the I/O layer (a missing or unreadable file, bytes that do not decode) are not part of
  the model; of the operations the loops apply to a line, indexing is the one that can
  raise, and the model keeps its IndexError.
\<close>

datatype error = IndexError

text \<open>
  \<^verbatim>\<open>s.split(c)\<close> for a separator \<open>c\<close> of one character: the fields between the
  occurrences of \<open>c\<close>, from left to right. No field is dropped, so the empty string
  gives one empty field.
\<close>

fun str_split :: "char \<Rightarrow> string \<Rightarrow> string list" where
  "str_split c [] = [[]]"
| "str_split c (x # xs) =
     (if x = c then [] # str_split c xs
      else (case str_split c xs of
              [] \<Rightarrow> [[x]]
            | fld # flds \<Rightarrow> (x # fld) # flds))"

text \<open>\<^verbatim>\<open>xs[i]\<close> for an index \<open>i \<ge> 0\<close>: out of range raises IndexError.\<close>

definition getitem :: "'a list \<Rightarrow> nat \<Rightarrow> error + 'a" where
  "getitem xs i = (if i < length xs then Inr (xs ! i) else Inl IndexError)"

text \<open>The first comma-delimited field of a line, \<^verbatim>\<open>line.split(',')[0]\<close>, where it exists.\<close>

definition first_field :: "string \<Rightarrow> string" where
  "first_field line = hd (str_split CHR '','' line)"

section \<open>Collecting the IDs\<close>

text \<open>
  \<^verbatim>\<open>
  ids = set([])
  num_ids = -1
  for line in ifile:
      if num_ids == -1:
          num_ids = 0
      else:
          split_line = line.split(',')
          if split_line[0] not in ids:
              num_ids += 1
              ids.add(split_line[0])
      if num_ids >= num:
          return ids
  return ids
  \<close>
  The body of the loop up to the test of \<^verbatim>\<open>num_ids >= num\<close> maps the pair
  \<open>(num_ids, ids)\<close> to its new value.
\<close>

definition get_ids_body :: "string \<Rightarrow> int \<Rightarrow> string set \<Rightarrow> error + (int \<times> string set)" where
  "get_ids_body line num_ids ids =
     (if num_ids = - 1 then Inr (0, ids)
      else (let split_line = str_split CHR '','' line in
            case getitem split_line 0 of
              Inl e \<Rightarrow> Inl e
            | Inr f \<Rightarrow>
                if f \<notin> ids then Inr (num_ids + 1, insert f ids)
                else Inr (num_ids, ids)))"

fun get_ids_loop :: "int \<Rightarrow> string list \<Rightarrow> int \<Rightarrow> string set \<Rightarrow> error + string set" where
  "get_ids_loop num [] num_ids ids = Inr ids"
| "get_ids_loop num (line # rest) num_ids ids =
     (case get_ids_body line num_ids ids of
        Inl e \<Rightarrow> Inl e
      | Inr (num_ids', ids') \<Rightarrow>
          if num_ids' \<ge> num then Inr ids'
          else get_ids_loop num rest num_ids' ids')"

definition get_ids :: "string list \<Rightarrow> int \<Rightarrow> error + string set" where
  "get_ids input_file num = get_ids_loop num input_file (- 1) {}"

section \<open>Copying the subset\<close>

text \<open>
  \<^verbatim>\<open>open(output_file, "w")\<close> creates the file when it is absent and truncates it
  when it is present: whatever the destination held before (\<open>None\<close> for no file), the
  handle starts on an empty file.
\<close>

definition open_w :: "string list option \<Rightarrow> string list" where
  "open_w prior = []"

text \<open>\<^verbatim>\<open>ofile.write(line)\<close> appends the line to what was written so far.\<close>

definition write_line :: "string list \<Rightarrow> string \<Rightarrow> string list" where
  "write_line ofile line = ofile @ [line]"

text \<open>
  \<^verbatim>\<open>
  header = True
  for line in ifile:
      split_line = line.split(',')
      if header or split_line[0] in ids:
          ofile.write(line)
      header = False
  \<close>
  The loop state is the flag \<open>header\<close>, the lines written so far and the set object
  \<open>ids\<close>, which the caller shares with the function. \<open>or\<close> evaluates its right operand
  only when \<open>header\<close> is false.
\<close>

fun copy_loop ::
  "string list \<Rightarrow> bool \<Rightarrow> string list \<Rightarrow> string set \<Rightarrow> error + (string list \<times> string set)" where
  "copy_loop [] header ofile ids = Inr (ofile, ids)"
| "copy_loop (line # rest) header ofile ids =
     (let split_line = str_split CHR '','' line in
      if header then copy_loop rest False (write_line ofile line) ids
      else (case getitem split_line 0 of
              Inl e \<Rightarrow> Inl e
            | Inr f \<Rightarrow>
                if f \<in> ids then copy_loop rest False (write_line ofile line) ids
                else copy_loop rest False ofile ids))"

text \<open>
  The result of a call is the content of the destination file and the set object \<open>ids\<close>
  as the call leaves them.
\<close>

definition copy_subset ::
  "string list \<Rightarrow> string list option \<Rightarrow> string set \<Rightarrow> error + (string list \<times> string set)" where
  "copy_subset input_file output_prior ids = copy_loop input_file True (open_w output_prior) ids"

section \<open>Runs and the layout of the set\<close>

text \<open>
  A Python set is a hash table, and Python salts the hashes of strings per process: two
  runs that put the same strings into a set may hold them in tables laid out differently.
  The functions above take the set as a \<open>string set\<close>, where no layout exists. To
  compare two runs the same code is modelled once more on the set object as a run has
  it: \<open>pyset\<close> is the list of the elements in table order, and a run is given by its
  function \<open>layout\<close>, which says how the table holding the list \<open>s\<close> looks once a
  new element \<open>x\<close> is put in, as \<open>layout (x # s)\<close>. \<^verbatim>\<open>x in ids\<close> looks
  the element up, and \<^verbatim>\<open>ids.add(x)\<close> leaves a table that has \<open>x\<close> as it is.
\<close>

type_synonym pyset = "string list"

definition pyset_contains :: "string \<Rightarrow> pyset \<Rightarrow> bool" where
  "pyset_contains x s = (x \<in> set s)"

definition pyset_add :: "(string list \<Rightarrow> string list) \<Rightarrow> string \<Rightarrow> pyset \<Rightarrow> pyset" where
  "pyset_add layout x s = (if x \<in> set s then s else layout (x # s))"

text \<open>
  \<open>get_ids\<close> in a run with table layout \<open>layout\<close>: the loop is the one of
  \<open>get_ids_loop\<close>, on the set object instead of the set; the result is the object.
\<close>

definition get_ids_run_body ::
  "(string list \<Rightarrow> string list) \<Rightarrow> string \<Rightarrow> int \<Rightarrow> pyset \<Rightarrow> error + (int \<times> pyset)" where
  "get_ids_run_body layout line num_ids ids =
     (if num_ids = - 1 then Inr (0, ids)
      else (let split_line = str_split CHR '','' line in
            case getitem split_line 0 of
              Inl e \<Rightarrow> Inl e
            | Inr f \<Rightarrow>
                if \<not> pyset_contains f ids then Inr (num_ids + 1, pyset_add layout f ids)
                else Inr (num_ids, ids)))"

fun get_ids_run_loop ::
  "(string list \<Rightarrow> string list) \<Rightarrow> int \<Rightarrow> string list \<Rightarrow> int \<Rightarrow> pyset \<Rightarrow> error + pyset" where
  "get_ids_run_loop layout num [] num_ids ids = Inr ids"
| "get_ids_run_loop layout num (line # rest) num_ids ids =
     (case get_ids_run_body layout line num_ids ids of
        Inl e \<Rightarrow> Inl e
      | Inr (num_ids', ids') \<Rightarrow>
          if num_ids' \<ge> num then Inr ids'
          else get_ids_run_loop layout num rest num_ids' ids')"

definition get_ids_run :: "(string list \<Rightarrow> string list) \<Rightarrow> string list \<Rightarrow> int \<Rightarrow> error + pyset" where
  "get_ids_run layout input_file num = get_ids_run_loop layout num input_file (- 1) []"

text \<open>
  \<open>copy_subset\<close> on a set object: the loop is the one of \<open>copy_loop\<close>; it only looks
  elements up, so it needs no layout function.
\<close>

fun copy_run_loop ::
  "string list \<Rightarrow> bool \<Rightarrow> string list \<Rightarrow> pyset \<Rightarrow> error + (string list \<times> pyset)" where
  "copy_run_loop [] header ofile ids = Inr (ofile, ids)"
| "copy_run_loop (line # rest) header ofile ids =
     (let split_line = str_split CHR '','' line in
      if header then copy_run_loop rest False (write_line ofile line) ids
      else (case getitem split_line 0 of
              Inl e \<Rightarrow> Inl e
            | Inr f \<Rightarrow>
                if pyset_contains f ids then copy_run_loop rest False (write_line ofile line) ids
                else copy_run_loop rest False ofile ids))"

definition copy_subset_run ::
  "string list \<Rightarrow> string list option \<Rightarrow> pyset \<Rightarrow> error + (string list \<times> pyset)" where
  "copy_subset_run input_file output_prior ids =
     copy_run_loop input_file True (open_w output_prior) ids"

section \<open>Splitting and indexing\<close>

lemma str_split_nonempty: "str_split c s \<noteq> []"
  by (induction s) (auto split: list.splits)

lemma str_split_hd: "hd (str_split c s) = takeWhile (\<lambda>x. x \<noteq> c) s"
  by (induction s) (auto split: list.splits simp: str_split_nonempty)

lemma getitem_split: "getitem (str_split CHR '','' line) 0 = Inr (first_field line)"
  using str_split_nonempty [of "CHR '',''" line]
  by (simp add: getitem_def first_field_def hd_conv_nth)

lemma first_field_prefix: "CHR '','' \<notin> set f \<Longrightarrow> first_field (f @ CHR '','' # rest) = f"
  by (simp add: first_field_def str_split_hd takeWhile_append)

lemma str_split_no_sep: "c \<notin> set s \<Longrightarrow> str_split c s = [s]"
  by (induction s) auto

lemma first_field_A: "first_field (CHR ''A'' # CHR '','' # p) = ''A''"
  using first_field_prefix [of "''A''" p] by simp

lemma first_field_B: "first_field (CHR ''B'' # CHR '','' # p) = ''B''"
  using first_field_prefix [of "''B''" p] by simp

section \<open>The collecting loop\<close>

text \<open>
  Reading the header sets \<open>num_ids\<close> to 0 and leaves the set alone; on every later
  line \<open>num_ids\<close> is not \<open>-1\<close> and the line's first field is added when it is new.
\<close>

lemma get_ids_body_header: "get_ids_body line (- 1) ids = Inr (0, ids)"
  by (simp add: get_ids_body_def)

lemma get_ids_body_data:
  "num_ids \<noteq> - 1 \<Longrightarrow> get_ids_body line num_ids ids =
     (if first_field line \<in> ids then Inr (num_ids, ids)
      else Inr (num_ids + 1, insert (first_field line) ids))"
  by (simp add: get_ids_body_def getitem_split)

lemma get_ids_loop_data:
  assumes "finite ids" and "num_ids = int (card ids)" and "num_ids < num"
  shows "\<exists>r. get_ids_loop num data num_ids ids = Inr r \<and> ids \<subseteq> r
           \<and> r \<subseteq> ids \<union> first_field ` set data
           \<and> int (card r) = min num (int (card (ids \<union> first_field ` set data)))"
  using assms
proof (induction data arbitrary: ids num_ids)
  case Nil
  then show ?case by simp
next
  case (Cons line rest)
  have ne: "num_ids \<noteq> - 1" using Cons.prems by simp
  show ?case
  proof (cases "first_field line \<in> ids")
    case True
    then have eq: "ids \<union> first_field ` set (line # rest) = ids \<union> first_field ` set rest"
      by auto
    from Cons.IH [OF Cons.prems] True ne Cons.prems(3) show ?thesis
      unfolding eq by (simp add: get_ids_body_data)
  next
    case False
    let ?ids' = "insert (first_field line) ids"
    have fin: "finite ?ids'" using Cons.prems by simp
    have cd: "num_ids + 1 = int (card ?ids')" using Cons.prems False by simp
    have eq: "ids \<union> first_field ` set (line # rest) = ?ids' \<union> first_field ` set rest"
      by auto
    show ?thesis
    proof (cases "num_ids + 1 \<ge> num")
      case stop: True
      have "card ?ids' \<le> card (?ids' \<union> first_field ` set rest)"
        by (rule card_mono) (use fin in auto)
      with stop cd Cons.prems(3) have "int (card ?ids') = min num (int (card (?ids' \<union> first_field ` set rest)))"
        by linarith
      with stop False ne show ?thesis
        unfolding eq by (auto simp add: get_ids_body_data)
    next
      case go: False
      then have lt: "num_ids + 1 < num" by simp
      from Cons.IH [OF fin cd lt] obtain r where
        r: "get_ids_loop num rest (num_ids + 1) ?ids' = Inr r" "?ids' \<subseteq> r"
           "r \<subseteq> ?ids' \<union> first_field ` set rest"
           "int (card r) = min num (int (card (?ids' \<union> first_field ` set rest)))"
        by blast
      with go False ne show ?thesis
        unfolding eq by (auto simp add: get_ids_body_data)
    qed
  qed
qed

lemma get_ids_header_stop: "num \<le> 0 \<Longrightarrow> get_ids (header # data) num = Inr {}"
  by (simp add: get_ids_def get_ids_body_header)

lemma get_ids_header_go:
  "0 < num \<Longrightarrow> get_ids (header # data) num = get_ids_loop num data 0 {}"
  by (simp add: get_ids_def get_ids_body_header)

lemma get_ids_empty_file: "get_ids [] num = Inr {}"
  by (simp add: get_ids_def)

section \<open>The copying loop\<close>

text \<open>
  After the header the loop appends, in order, the lines whose first field is in the set,
  and hands the set back as it received it.
\<close>

lemma copy_loop_data:
  "copy_loop data False ofile ids = Inr (ofile @ filter (\<lambda>L. first_field L \<in> ids) data, ids)"
  by (induction data arbitrary: ofile) (simp_all add: getitem_split write_line_def)

lemma copy_subset_eq:
  "copy_subset input_file prior ids =
     Inr (take 1 input_file @ filter (\<lambda>L. first_field L \<in> ids) (drop 1 input_file), ids)"
  by (cases input_file) (simp_all add: copy_subset_def open_w_def write_line_def copy_loop_data)

section \<open>Runs against the layout-free functions\<close>

text \<open>
  Both functions return on every content. In a run whose layout function keeps the
  elements, the object \<open>get_ids_run\<close> returns holds the set \<open>get_ids\<close> returns, and
  \<open>copy_subset_run\<close> writes what \<open>copy_subset\<close> writes for the set of the object.
\<close>

lemma get_ids_returns: "\<exists>r. get_ids input_file num = Inr r"
proof (cases input_file)
  case Nil
  then show ?thesis by (simp add: get_ids_empty_file)
next
  case (Cons header data)
  show ?thesis
  proof (cases "num \<le> 0")
    case True
    then show ?thesis unfolding Cons by (simp add: get_ids_header_stop)
  next
    case False
    then have "0 < num" by simp
    with get_ids_loop_data [of "{}" 0 num data] show ?thesis
      unfolding Cons by (auto simp add: get_ids_header_go)
  qed
qed

lemma get_ids_run_body_set:
  assumes "\<forall>xs. set (layout xs) = set xs"
  shows "get_ids_body line num_ids (set s) =
           map_sum id (map_prod id set) (get_ids_run_body layout line num_ids s)"
  using assms
  by (simp add: get_ids_body_def get_ids_run_body_def pyset_contains_def pyset_add_def
      getitem_split)

lemma get_ids_run_loop_set:
  assumes "\<forall>xs. set (layout xs) = set xs"
  shows "get_ids_loop num input_file num_ids (set s) =
           map_sum id set (get_ids_run_loop layout num input_file num_ids s)"
proof (induction input_file arbitrary: num_ids s)
  case Nil
  show ?case by simp
next
  case (Cons line rest)
  show ?case
  proof (cases "get_ids_run_body layout line num_ids s")
    case (Inl e)
    then show ?thesis by (simp add: get_ids_run_body_set [OF assms])
  next
    case (Inr p)
    obtain k s' where p: "p = (k, s')" by (cases p)
    show ?thesis using Inr Cons.IH [of k s']
      by (simp add: get_ids_run_body_set [OF assms] p)
  qed
qed

lemma get_ids_run_set:
  "\<forall>xs. set (layout xs) = set xs \<Longrightarrow>
     get_ids input_file num = map_sum id set (get_ids_run layout input_file num)"
  using get_ids_run_loop_set [of layout num input_file "- 1" "[]"]
  by (simp add: get_ids_def get_ids_run_def)

lemma copy_run_loop_eq:
  "copy_run_loop input_file header ofile s =
     map_sum id (\<lambda>p. (fst p, s)) (copy_loop input_file header ofile (set s))"
  by (induction input_file arbitrary: header ofile)
     (simp_all add: pyset_contains_def getitem_split)

lemma copy_subset_run_eq:
  "copy_subset_run input_file prior s =
     Inr (take 1 input_file @ filter (\<lambda>L. first_field L \<in> set s) (drop 1 input_file), s)"
  using copy_subset_eq [of input_file prior "set s"]
  by (simp add: copy_subset_run_def copy_subset_def copy_run_loop_eq)

section \<open>The claims\<close>

text \<open>
  Claim C1. For every source content, prior destination content and ID set, the
  destination holds after \<open>copy_subset\<close> the first line of the source (when there is
  one) followed by exactly the later lines whose first comma-delimited field is in the ID
  set, in the order of the source: a data line is written if and only if its first field
  is a member of the set.
\<close>

theorem copy_subset_filter:
  "\<exists>ids'. copy_subset input_file prior ids =
      Inr (take 1 input_file @ filter (\<lambda>L. first_field L \<in> ids) (drop 1 input_file), ids')"
  by (simp add: copy_subset_eq)

text \<open>
  Claim C2. For a file of one header line followed by data lines and a target count
  \<open>num \<ge> 0\<close>, \<open>get_ids\<close> returns a set of first fields of data lines whose size is
  the minimum of \<open>num\<close> and the number \<open>d\<close> of distinct first fields among the data
  lines; so the size is at most \<open>num + 1\<close>, at most \<open>d\<close>, and equal to \<open>num\<close> when
  \<open>num \<le> d\<close>.
\<close>

theorem get_ids_card:
  assumes "0 \<le> num"
  shows "\<exists>r. get_ids (header # data) num = Inr r
           \<and> r \<subseteq> first_field ` set data
           \<and> int (card r) = min num (int (card (first_field ` set data)))
           \<and> int (card r) \<le> num + 1
           \<and> card r \<le> card (first_field ` set data)
           \<and> (num \<le> int (card (first_field ` set data)) \<longrightarrow> int (card r) = num)"
proof (cases "num = 0")
  case True
  then show ?thesis by (simp add: get_ids_header_stop)
next
  case False
  with assms have pos: "0 < num" by simp
  from get_ids_loop_data [of "{}" 0 num data] pos obtain r where
    r: "get_ids_loop num data 0 {} = Inr r" "r \<subseteq> first_field ` set data"
       "int (card r) = min num (int (card (first_field ` set data)))"
    by auto
  from r(3) have "int (card r) \<le> num + 1" "card r \<le> card (first_field ` set data)"
    "num \<le> int (card (first_field ` set data)) \<longrightarrow> int (card r) = num"
    by linarith+
  with r pos show ?thesis by (simp add: get_ids_header_go)
qed

theorem get_ids_card_witness:
  "(0::int) \<le> 2 \<and>
   (\<exists>r. get_ids [''id,t,x,y,z\<newline>'', ''A,1\<newline>'', ''B,2\<newline>'', ''A,3\<newline>'', ''C,4\<newline>''] 2 = Inr r
      \<and> int (card r) = 2)
   \<and> (2::int) \<le> int (card (first_field ` set [''A,1\<newline>'', ''B,2\<newline>'', ''A,3\<newline>'', ''C,4\<newline>'']))"
proof -
  have h: "(0::int) \<le> 2" by simp
  have d: "card (first_field ` set [''A,1\<newline>'', ''B,2\<newline>'', ''A,3\<newline>'', ''C,4\<newline>'']) = 3"
    by (simp add: first_field_def card_insert_if)
  from get_ids_card [OF h, of "''id,t,x,y,z\<newline>''" "[''A,1\<newline>'', ''B,2\<newline>'', ''A,3\<newline>'', ''C,4\<newline>'']"]
  show ?thesis unfolding d by auto
qed

text \<open>
  Claim C3. For every source with at least one line, every prior destination content and
  every ID set, the destination is not empty after \<open>copy_subset\<close> and its first line is
  the first line of the source. The first line is written without a membership test: with
  the empty ID set, which contains no first field at all, the destination is the header
  alone.
\<close>

theorem copy_subset_header:
  "(\<exists>out ids'. copy_subset (header # data) prior ids = Inr (out, ids') \<and> out \<noteq> [] \<and> hd out = header)
   \<and> copy_subset (header # data) prior {} = Inr ([header], {})"
  by (simp add: copy_subset_eq)

text \<open>
  Claim C4, as stated: with target count 0 and at least one data line, \<open>get_ids\<close>
  returns the one-element set of the first data line's first field. The code tests
  \<open>num_ids >= num\<close> after the header line as well, where \<open>num_ids\<close> is 0, so it
  returns before it reads a data line: on the file below the result is the empty set, not
  \<open>{A}\<close>.
\<close>

theorem get_ids_zero_counterexample:
  "get_ids [''id,t,x,y,z\<newline>'', ''A,1,0,0,0\<newline>''] 0 = Inr {}
   \<and> first_field ''A,1,0,0,0\<newline>'' = ''A''
   \<and> get_ids [''id,t,x,y,z\<newline>'', ''A,1,0,0,0\<newline>''] 0 \<noteq> Inr {''A''}"
  by (simp add: get_ids_def get_ids_body_def first_field_def)

text \<open>
  Claim C4, amended. With target count 0 and a source of a header line and at least one
  data line, \<open>get_ids\<close> returns the empty set, whatever the data lines are: the stop
  condition holds right after the header line, and no data line contributes an ID.
\<close>

theorem get_ids_zero_empty: "get_ids (header # line # rest) 0 = Inr {}"
  by (simp add: get_ids_header_stop)

text \<open>
  Claim C5. On the file with header \<open>id,t,x,y,z\<close> and four data rows whose first fields
  are A, B, A, C (with any payload after the comma), \<open>get_ids\<close> with \<open>num = 2\<close>
  returns \<open>{A, B}\<close>. It stops as soon as B is added: whatever follows the row of B, the
  result is \<open>{A, B}\<close>; and A is collected before B: on the file cut after the row of A
  the result is \<open>{A}\<close>.
\<close>

theorem get_ids_scenario:
  "get_ids [''id,t,x,y,z\<newline>'', ''A,'' @ p1, ''B,'' @ p2, ''A,'' @ p3, ''C,'' @ p4] 2 = Inr {''A'', ''B''}
   \<and> get_ids (''id,t,x,y,z\<newline>'' # (''A,'' @ p1) # (''B,'' @ p2) # rest) 2 = Inr {''A'', ''B''}
   \<and> get_ids [''id,t,x,y,z\<newline>'', ''A,'' @ p1] 2 = Inr {''A''}"
  by (auto simp add: get_ids_header_go get_ids_body_data first_field_A first_field_B)

text \<open>
  Claim C6. Taking the first comma-delimited field is total: for every line the split
  yields at least one field, so index 0 is in range; a line with no comma is its own only
  field and the empty line gives one empty field. Hence \<open>get_ids\<close> and
  \<open>copy_subset\<close> return a result, never an IndexError, on every content.
\<close>

theorem first_field_total:
  "str_split CHR '','' line \<noteq> []
   \<and> (\<exists>f. getitem (str_split CHR '','' line) 0 = Inr f)
   \<and> (CHR '','' \<notin> set line \<longrightarrow> str_split CHR '','' line = [line])
   \<and> str_split CHR '','' [] = [[]]
   \<and> (\<exists>r. get_ids input_file num = Inr r)
   \<and> (\<exists>res. copy_subset input_file prior ids = Inr res)"
proof -
  have "\<exists>r. get_ids input_file num = Inr r"
  proof (cases input_file)
    case Nil
    then show ?thesis by (simp add: get_ids_empty_file)
  next
    case (Cons header data)
    show ?thesis
    proof (cases "num \<le> 0")
      case True
      then show ?thesis unfolding Cons by (simp add: get_ids_header_stop)
    next
      case False
      then have "0 < num" by simp
      with get_ids_loop_data [of "{}" 0 num data] show ?thesis
        unfolding Cons by (auto simp add: get_ids_header_go)
    qed
  qed
  then show ?thesis
    by (simp add: str_split_nonempty getitem_split str_split_no_sep copy_subset_eq)
qed

theorem first_field_total_witness:
  "CHR '','' \<notin> set ''A\<newline>'' \<and> str_split CHR '','' ''A\<newline>'' = [''A\<newline>'']
   \<and> getitem (str_split CHR '','' []) 0 = Inr []"
  using first_field_total [of "''A\<newline>''" "[]" 0 None "{}"] first_field_total [of "[]" "[]" 0 None "{}"]
  by (simp add: getitem_def)

text \<open>
  Claim C7. \<open>copy_subset\<close> does not mutate the ID set: for every source content, prior
  destination content and set \<open>ids\<close>, the call returns normally and leaves the set
  object with exactly the elements it had before the call.
\<close>

theorem copy_subset_ids_unchanged:
  "\<exists>out. copy_subset input_file prior ids = Inr (out, ids)"
  by (simp add: copy_subset_eq)

text \<open>
  Claim C8. Both operations are deterministic: what a run returns or writes depends on
  the file content, the target count and the elements of the ID set only, not on what
  differs between two runs, the layout of the set object and the prior content of the
  destination. For any two layouts that keep the elements, \<open>get_ids\<close> returns in both
  runs, on the same content and target count, and the two objects hold equal sets; for
  two set objects with equal elements and any two prior destination contents,
  \<open>copy_subset\<close> on the same source content leaves the same destination content, line for
  line, in both runs.
\<close>

theorem runs_deterministic:
  assumes "\<forall>xs. set (layout1 xs) = set xs" and "\<forall>xs. set (layout2 xs) = set xs"
    and "set ids1 = set ids2"
  shows "(\<exists>r1 r2. get_ids_run layout1 driver_file num = Inr r1
            \<and> get_ids_run layout2 driver_file num = Inr r2 \<and> set r1 = set r2)
       \<and> (\<exists>out. copy_subset_run input_file prior1 ids1 = Inr (out, ids1)
            \<and> copy_subset_run input_file prior2 ids2 = Inr (out, ids2))"
proof -
  obtain r where r: "get_ids driver_file num = Inr r"
    using get_ids_returns by blast
  from r get_ids_run_set [OF assms(1), of driver_file num]
  obtain r1 where r1: "get_ids_run layout1 driver_file num = Inr r1" "set r1 = r"
    by (cases "get_ids_run layout1 driver_file num") auto
  from r get_ids_run_set [OF assms(2), of driver_file num]
  obtain r2 where r2: "get_ids_run layout2 driver_file num = Inr r2" "set r2 = r"
    by (cases "get_ids_run layout2 driver_file num") auto
  from r1 r2 have "\<exists>r1 r2. get_ids_run layout1 driver_file num = Inr r1
            \<and> get_ids_run layout2 driver_file num = Inr r2 \<and> set r1 = set r2"
    by simp
  then show ?thesis using assms(3) by (simp add: copy_subset_run_eq)
qed

theorem runs_deterministic_witness:
  "(\<forall>xs::string list. set ((\<lambda>ys. ys) xs) = set xs) \<and> (\<forall>xs::string list. set (rev xs) = set xs)
   \<and> get_ids_run (\<lambda>ys. ys) [''id,t\<newline>'', ''A,1\<newline>'', ''B,2\<newline>'', ''C,3\<newline>''] 2 = Inr [''B'', ''A'']
   \<and> get_ids_run rev [''id,t\<newline>'', ''A,1\<newline>'', ''B,2\<newline>'', ''C,3\<newline>''] 2 = Inr [''A'', ''B'']
   \<and> set [''B'', ''A''] = set [''A'', ''B'']
   \<and> copy_subset_run [''id,t\<newline>'', ''A,1\<newline>'', ''C,3\<newline>'', ''B,2\<newline>''] None [''B'', ''A'']
       = Inr ([''id,t\<newline>'', ''A,1\<newline>'', ''B,2\<newline>''], [''B'', ''A''])
   \<and> copy_subset_run [''id,t\<newline>'', ''A,1\<newline>'', ''C,3\<newline>'', ''B,2\<newline>'']
         (Some [''id,t\<newline>'', ''A,1\<newline>'', ''B,2\<newline>'']) [''A'', ''B'']
       = Inr ([''id,t\<newline>'', ''A,1\<newline>'', ''B,2\<newline>''], [''A'', ''B''])"
proof -
  let ?d = "[''id,t\<newline>'', ''A,1\<newline>'', ''B,2\<newline>'', ''C,3\<newline>'']"
  let ?f = "[''id,t\<newline>'', ''A,1\<newline>'', ''C,3\<newline>'', ''B,2\<newline>'']"
  let ?o = "[''id,t\<newline>'', ''A,1\<newline>'', ''B,2\<newline>'']"
  have h1: "\<forall>xs::string list. set ((\<lambda>ys. ys) xs) = set xs" by simp
  have h2: "\<forall>xs::string list. set (rev xs) = set xs" by simp
  have h3: "set [''B'', ''A''] = set [''A'', ''B'']" by auto
  have g1: "get_ids_run (\<lambda>ys. ys) ?d 2 = Inr [''B'', ''A'']"
    by (simp add: get_ids_run_def get_ids_run_body_def getitem_def pyset_contains_def pyset_add_def)
  have g2: "get_ids_run rev ?d 2 = Inr [''A'', ''B'']"
    by (simp add: get_ids_run_def get_ids_run_body_def getitem_def pyset_contains_def pyset_add_def)
  have c1: "copy_subset_run ?f None [''B'', ''A''] = Inr (?o, [''B'', ''A''])"
    by (simp add: copy_subset_run_def open_w_def write_line_def getitem_def pyset_contains_def)
  have c2: "copy_subset_run ?f (Some ?o) [''A'', ''B''] = Inr (?o, [''A'', ''B''])"
    by (simp add: copy_subset_run_def open_w_def write_line_def getitem_def pyset_contains_def)
  from runs_deterministic [OF h1 h2 h3, of ?d 2 ?f None "Some ?o"] h1 h2 h3 g1 g2 c1 c2
  show ?thesis by simp
qed

text \<open>
  Claim C9. For every target count \<open>num \<le> 0\<close> and every file content, \<open>get_ids\<close>
  returns the empty set: an empty file leaves the set empty, and otherwise the stop
  condition \<open>num_ids >= num\<close> holds right after the header line.
\<close>

theorem get_ids_nonpositive:
  "num \<le> 0 \<Longrightarrow> get_ids input_file num = Inr {}"
  by (cases input_file) (simp_all add: get_ids_empty_file get_ids_header_stop)

theorem get_ids_nonpositive_witness:
  "(0::int) \<le> 0 \<and> get_ids [''id,t\<newline>'', ''A,1\<newline>''] 0 = Inr {}
   \<and> (- 3::int) \<le> 0 \<and> get_ids [''id,t\<newline>'', ''A,1\<newline>''] (- 3) = Inr {}"
  using get_ids_nonpositive [of 0 "[''id,t\<newline>'', ''A,1\<newline>'']"]
    get_ids_nonpositive [of "- 3" "[''id,t\<newline>'', ''A,1\<newline>'']"]
  by simp

text \<open>
  Claim C10. On a source of zero lines \<open>copy_subset\<close> writes nothing: the destination,
  created when it was absent and truncated when it was present, is left with zero lines,
  and no header line is made up.
\<close>

theorem copy_subset_empty_file: "copy_subset [] prior ids = Inr ([], ids)"
  by (simp add: copy_subset_def open_w_def)

end
